theory Spec2Isabelle
  imports Main
begin

section \<open>Topics, listener records and the reply buffer\<close>

text \<open>
  The enum \<open>WorkerMessengerCommand\<close> of \<^verbatim>\<open>WorkerMessenger.ts\<close>. It is a string enum:
  at run time a member is its string, and \<open>command.toString()\<close> is that string.
\<close>

datatype WorkerMessengerCommand =
    WorkerVersion
  | Subscribe
  | AmpSubscriptionState
  | AmpSubscribe
  | AmpUnsubscribe
  | NotificationDisplayed
  | NotificationClicked
  | NotificationDismissed
  | RedirectPage

fun toString :: "WorkerMessengerCommand \<Rightarrow> string" where
  "toString WorkerVersion = ''GetWorkerVersion''"
| "toString Subscribe = ''Subscribe''"
| "toString AmpSubscriptionState = ''amp-web-push-subscription-state''"
| "toString AmpSubscribe = ''amp-web-push-subscribe''"
| "toString AmpUnsubscribe = ''amp-web-push-unsubscribe''"
| "toString NotificationDisplayed = ''notification.displayed''"
| "toString NotificationClicked = ''notification.clicked''"
| "toString NotificationDismissed = ''notification.dismissed''"
| "toString RedirectPage = ''command.redirect''"

text \<open>The interface \<open>WorkerMessengerMessage\<close>: the wire shape of a message.\<close>

record 'p WorkerMessengerMessage =
  command :: WorkerMessengerCommand
  payload :: 'p

text \<open>
  The interface \<open>WorkerMessengerReplyBufferRecord\<close>. A record is a JavaScript object, and
  the code compares records with \<open>===\<close>, that is by reference: \<open>ident\<close> is the
  object's identity (its address). A callback is a JavaScript function; it is named by a
  number here, and a table gives each callback its body (see below).
\<close>

record WorkerMessengerReplyBufferRecord =
  ident :: nat
  callback :: nat
  onceListenerOnly :: bool

text \<open>
  What a property of the object \<open>this.replies\<close> can hold: nothing (\<open>undefined\<close>, the
  value of a key that was never written), \<open>null\<close> (written by
  \<open>deleteListenerRecords\<close>) or an array of records.
\<close>

datatype jsval =
    Undefined
  | Null
  | Arr "WorkerMessengerReplyBufferRecord list"

text \<open>
  The errors of the code: the \<open>TypeError\<close> that JavaScript raises when a property of
  \<open>undefined\<close> or \<open>null\<close> is read, and the \<open>InvalidArgumentError\<close> that
  \<open>unicast\<close> throws. The enum \<open>InvalidArgumentReason\<close> is declared outside the
  two source files; the code uses its member \<open>Empty\<close> only. \<open>CallbackError\<close> is
  whatever a callback of the caller throws.
\<close>

datatype InvalidArgumentReason = Empty

datatype error =
    TypeError
  | InvalidArgumentError string InvalidArgumentReason
  | CallbackError

text \<open>
  The class \<open>WorkerMessengerReplyBuffer\<close>: the object \<open>replies\<close>, read at the key
  \<open>command.toString()\<close>. Reading a key that was never written gives \<open>undefined\<close>, so
  the object is a total function and \<open>{}\<close> is the function that is \<open>Undefined\<close>
  everywhere. The keys the code uses are the nine strings of the enum, none of which is
  a property that \<open>{}\<close> inherits from its prototype.

  \<open>allocated\<close> is not a field of the class: it counts the record objects created so
  far, and gives the next record its identity. Emptying the buffer does not reset it.
\<close>

record WorkerMessengerReplyBuffer =
  replies :: "string \<Rightarrow> jsval"
  allocated :: nat

definition new_buffer :: WorkerMessengerReplyBuffer where
  "new_buffer = \<lparr>replies = (\<lambda>k. Undefined), allocated = 0\<rparr>"

text \<open>JavaScript's truthiness: \<open>undefined\<close> and \<open>null\<close> are falsy, every array is truthy
  (the empty one too), a string is truthy unless it is empty.\<close>

fun truthy :: "jsval \<Rightarrow> bool" where
  "truthy Undefined = False"
| "truthy Null = False"
| "truthy (Arr xs) = True"

definition truthy_string :: "string \<Rightarrow> bool" where
  "truthy_string s = (s \<noteq> [])"

text \<open>\<open>findListenersForMessage\<close>: \<open>this.replies[command.toString()] || []\<close>.\<close>

definition findListenersForMessage ::
  "WorkerMessengerReplyBuffer \<Rightarrow> WorkerMessengerCommand \<Rightarrow> jsval" where
  "findListenersForMessage s cmd =
     (let v = replies s (toString cmd) in if truthy v then v else Arr [])"

text \<open>
  \<open>addListener\<close>: a new record object is created, then pushed on the topic's array when
  \<open>findListenersForMessage(command).length > 0\<close>, and stored as a new one-element array
  otherwise. Reading \<open>length\<close> of, or calling \<open>push\<close> on, a value that is not an array
  raises.
\<close>

definition addListener ::
  "WorkerMessengerCommand \<Rightarrow> nat \<Rightarrow> bool \<Rightarrow> WorkerMessengerReplyBuffer
     \<Rightarrow> error + WorkerMessengerReplyBuffer" where
  "addListener cmd cb once_only s =
     (let r = \<lparr>ident = allocated s, callback = cb, onceListenerOnly = once_only\<rparr>;
          s1 = s\<lparr>allocated := Suc (allocated s)\<rparr>
      in case findListenersForMessage s1 cmd of
           Arr found \<Rightarrow>
             if length found > 0 then
               (case replies s1 (toString cmd) of
                  Arr xs \<Rightarrow> Inr (s1\<lparr>replies := (replies s1)(toString cmd := Arr (xs @ [r]))\<rparr>)
                | Undefined \<Rightarrow> Inl TypeError
                | Null \<Rightarrow> Inl TypeError)
             else Inr (s1\<lparr>replies := (replies s1)(toString cmd := Arr [r])\<rparr>)
         | Undefined \<Rightarrow> Inl TypeError
         | Null \<Rightarrow> Inl TypeError)"

text \<open>\<open>deleteListenerRecords\<close>: \<open>this.replies[command.toString()] = null\<close>.\<close>

definition deleteListenerRecords ::
  "WorkerMessengerCommand \<Rightarrow> WorkerMessengerReplyBuffer \<Rightarrow> WorkerMessengerReplyBuffer" where
  "deleteListenerRecords cmd s = s\<lparr>replies := (replies s)(toString cmd := Null)\<rparr>"

text \<open>\<open>deleteAllListenerRecords\<close>: \<open>this.replies = {}\<close>.\<close>

definition deleteAllListenerRecords ::
  "WorkerMessengerReplyBuffer \<Rightarrow> WorkerMessengerReplyBuffer" where
  "deleteAllListenerRecords s = s\<lparr>replies := (\<lambda>k. Undefined)\<rparr>"

text \<open>
  \<open>deleteListenerRecord\<close>. The loop runs the index from \<open>length - 1\<close> down to \<open>0\<close>
  and splices out every entry that is the target object. \<open>splice_loop n\<close> is the loop
  with \<open>n\<close> indices left, that is at index \<open>n - 1\<close>; an index below the one spliced
  keeps its entry, so the index read is always in range. The array is changed in
  place, so the key keeps holding it.

  \<open>listenersForCommand.length\<close> is read with no guard: when the key holds
  \<open>undefined\<close> or \<open>null\<close>, that read raises a \<open>TypeError\<close>.
\<close>

definition same_object ::
  "WorkerMessengerReplyBufferRecord \<Rightarrow> WorkerMessengerReplyBufferRecord \<Rightarrow> bool" where
  "same_object a b = (ident a = ident b)"

fun splice_loop ::
  "nat \<Rightarrow> WorkerMessengerReplyBufferRecord \<Rightarrow> WorkerMessengerReplyBufferRecord list
     \<Rightarrow> WorkerMessengerReplyBufferRecord list" where
  "splice_loop 0 targetRecord xs = xs"
| "splice_loop (Suc i) targetRecord xs =
     splice_loop i targetRecord
       (if same_object (xs ! i) targetRecord then take i xs @ drop (Suc i) xs else xs)"

definition deleteListenerRecord ::
  "WorkerMessengerCommand \<Rightarrow> WorkerMessengerReplyBufferRecord \<Rightarrow> WorkerMessengerReplyBuffer
     \<Rightarrow> error + WorkerMessengerReplyBuffer" where
  "deleteListenerRecord cmd targetRecord s =
     (case replies s (toString cmd) of
        Arr listenersForCommand \<Rightarrow>
          Inr (s\<lparr>replies := (replies s)(toString cmd :=
                 Arr (splice_loop (length listenersForCommand) targetRecord listenersForCommand))\<rparr>)
      | Undefined \<Rightarrow> Inl TypeError
      | Null \<Rightarrow> Inl TypeError)"


section \<open>The messenger\<close>

text \<open>
  The messenger's only mutable state is its reply buffer (\<open>context\<close> and \<open>debug\<close> are
  written by the constructor only), so its operations are functions on the buffer.

  \<open>on\<close> and \<open>once\<close> add a persistent and a one-shot listener. \<open>off\<close> tests
  \<open>if (command)\<close>: an omitted argument is falsy, and so would be an empty string.
\<close>

definition on ::
  "WorkerMessengerCommand \<Rightarrow> nat \<Rightarrow> WorkerMessengerReplyBuffer
     \<Rightarrow> error + WorkerMessengerReplyBuffer" where
  "on cmd cb s = addListener cmd cb False s"

definition once ::
  "WorkerMessengerCommand \<Rightarrow> nat \<Rightarrow> WorkerMessengerReplyBuffer
     \<Rightarrow> error + WorkerMessengerReplyBuffer" where
  "once cmd cb s = addListener cmd cb True s"

definition off ::
  "WorkerMessengerCommand option \<Rightarrow> WorkerMessengerReplyBuffer \<Rightarrow> WorkerMessengerReplyBuffer" where
  "off cmd s =
     (case cmd of
        None \<Rightarrow> deleteAllListenerRecords s
      | Some c \<Rightarrow>
          if truthy_string (toString c) then deleteListenerRecords c s
          else deleteAllListenerRecords s)"

subsection \<open>Callbacks\<close>

text \<open>
  A callback is code of the caller. Here a callback is a script over the messenger's
  public operations: it may register listeners, unregister them, hand a message to the
  receive handler again from within itself, and throw. A table \<open>cbs\<close> gives the script
  of callback \<open>cb\<close> called with payload \<open>p\<close> as \<open>cbs cb p\<close>. Callbacks that keep the
  array returned by \<open>findListenersForMessage\<close> and write to it, or that never return
  for a reason other than re-entering the handler, are outside this model.
\<close>

datatype 'p action =
    On WorkerMessengerCommand nat
  | Once WorkerMessengerCommand nat
  | Off "WorkerMessengerCommand option"
  | Receive WorkerMessengerCommand 'p
  | Throw

text \<open>
  What a dispatch did: each invocation of a callback, with the record it was invoked
  for, the payload it got, and the invocations made by the dispatches the callback
  itself started, in order.
\<close>

datatype 'p event =
  Invoked (invoked_record: WorkerMessengerReplyBufferRecord) (invoked_payload: 'p)
          (nested: "'p event list")

text \<open>
  The result of running code on the buffer: the error it threw, if any, the buffer it
  left, and the invocations it made. The whole result is \<open>None\<close> when the code did not
  return within the bound on the nesting of handler calls.
\<close>

type_synonym 'p outcome = "error option \<times> WorkerMessengerReplyBuffer \<times> 'p event list"

text \<open>
  The body of a callback, run action by action. \<open>recv\<close> is the receive handler the
  callback can call. The handler is an \<open>async\<close> function: a call to it returns a
  promise, so an error inside it rejects that promise and is not thrown to the callback,
  which goes on. A callback that throws ends there, with the buffer as it is then.
\<close>

fun run_actions ::
  "('p WorkerMessengerMessage \<Rightarrow> WorkerMessengerReplyBuffer \<Rightarrow> 'p outcome option)
     \<Rightarrow> 'p action list \<Rightarrow> WorkerMessengerReplyBuffer \<Rightarrow> 'p outcome option" where
  "run_actions recv [] s = Some (None, s, [])"
| "run_actions recv (On cmd cb # rest) s =
     (case on cmd cb s of
        Inl e \<Rightarrow> Some (Some e, s, [])
      | Inr s1 \<Rightarrow> run_actions recv rest s1)"
| "run_actions recv (Once cmd cb # rest) s =
     (case once cmd cb s of
        Inl e \<Rightarrow> Some (Some e, s, [])
      | Inr s1 \<Rightarrow> run_actions recv rest s1)"
| "run_actions recv (Off cmd # rest) s = run_actions recv rest (off cmd s)"
| "run_actions recv (Receive cmd p # rest) s =
     (case recv \<lparr>command = cmd, payload = p\<rparr> s of
        None \<Rightarrow> None
      | Some (settled, s1, evs1) \<Rightarrow>
          (case run_actions recv rest s1 of
             None \<Rightarrow> None
           | Some (e, s2, evs2) \<Rightarrow> Some (e, s2, evs1 @ evs2)))"
| "run_actions recv (Throw # rest) s = Some (Some CallbackError, s, [])"

subsection \<open>Dispatch on receive\<close>

text \<open>
  The first loop of a handler: every record goes to \<open>listenersToCall\<close>, the once-only
  ones to \<open>listenersToRemove\<close> as well.
\<close>

fun collect_loop ::
  "WorkerMessengerReplyBufferRecord list
     \<Rightarrow> WorkerMessengerReplyBufferRecord list \<times> WorkerMessengerReplyBufferRecord list
     \<Rightarrow> WorkerMessengerReplyBufferRecord list \<times> WorkerMessengerReplyBufferRecord list" where
  "collect_loop [] (listenersToRemove, listenersToCall) = (listenersToRemove, listenersToCall)"
| "collect_loop (listenerRecord # rest) (listenersToRemove, listenersToCall) =
     collect_loop rest
       (if onceListenerOnly listenerRecord then listenersToRemove @ [listenerRecord]
        else listenersToRemove,
        listenersToCall @ [listenerRecord])"

text \<open>
  The second loop: \<open>deleteListenerRecord\<close> for \<open>listenersToRemove[i]\<close>, with \<open>i\<close> from
  \<open>length - 1\<close> down to \<open>0\<close>; \<open>remove_loop n\<close> has \<open>n\<close> indices left. An error ends
  the loop with the buffer as it is then.
\<close>

fun remove_loop ::
  "nat \<Rightarrow> WorkerMessengerReplyBufferRecord list \<Rightarrow> WorkerMessengerCommand
     \<Rightarrow> WorkerMessengerReplyBuffer \<Rightarrow> error option \<times> WorkerMessengerReplyBuffer" where
  "remove_loop 0 listenersToRemove cmd s = (None, s)"
| "remove_loop (Suc i) listenersToRemove cmd s =
     (case deleteListenerRecord cmd (listenersToRemove ! i) s of
        Inl e \<Rightarrow> (Some e, s)
      | Inr s1 \<Rightarrow> remove_loop i listenersToRemove cmd s1)"

text \<open>
  The third loop: \<open>listenerRecord.callback.apply(null, [data.payload])\<close> for each record of
  \<open>listenersToCall\<close>. A callback that throws ends the loop.
\<close>

fun invoke_all ::
  "('p WorkerMessengerMessage \<Rightarrow> WorkerMessengerReplyBuffer \<Rightarrow> 'p outcome option)
     \<Rightarrow> (nat \<Rightarrow> 'p \<Rightarrow> 'p action list) \<Rightarrow> 'p
     \<Rightarrow> WorkerMessengerReplyBufferRecord list \<Rightarrow> WorkerMessengerReplyBuffer
     \<Rightarrow> 'p outcome option" where
  "invoke_all recv cbs p [] s = Some (None, s, [])"
| "invoke_all recv cbs p (listenerRecord # rest) s =
     (case run_actions recv (cbs (callback listenerRecord) p) s of
        None \<Rightarrow> None
      | Some (Some e, s1, evs1) \<Rightarrow> Some (Some e, s1, [Invoked listenerRecord p evs1])
      | Some (None, s1, evs1) \<Rightarrow>
          (case invoke_all recv cbs p rest s1 of
             None \<Rightarrow> None
           | Some (e, s2, evs2) \<Rightarrow> Some (e, s2, Invoked listenerRecord p evs1 # evs2)))"

text \<open>
  \<open>onWorkerMessageReceivedFromPage\<close>, the handler of the worker side. The function has
  no \<open>await\<close>, so a call runs to its end before it returns. The first argument bounds
  how deep callbacks may re-enter the handler: a call that would need more is \<open>None\<close>.
  A callback of this handler that hands on a message re-enters this handler.
\<close>

primrec onWorkerMessageReceivedFromPage ::
  "nat \<Rightarrow> (nat \<Rightarrow> 'p \<Rightarrow> 'p action list) \<Rightarrow> 'p WorkerMessengerMessage
     \<Rightarrow> WorkerMessengerReplyBuffer \<Rightarrow> 'p outcome option" where
  "onWorkerMessageReceivedFromPage 0 cbs event s = None"
| "onWorkerMessageReceivedFromPage (Suc depth) cbs event s =
     (case findListenersForMessage s (command event) of
        Arr listenerRecords \<Rightarrow>
          (case collect_loop listenerRecords ([], []) of
             (listenersToRemove, listenersToCall) \<Rightarrow>
               (case remove_loop (length listenersToRemove) listenersToRemove (command event) s of
                  (Some e, s1) \<Rightarrow> Some (Some e, s1, [])
                | (None, s1) \<Rightarrow>
                    invoke_all (onWorkerMessageReceivedFromPage depth cbs) cbs (payload event)
                      listenersToCall s1))
      | Undefined \<Rightarrow> Some (Some TypeError, s, [])
      | Null \<Rightarrow> Some (Some TypeError, s, []))"

text \<open>\<open>onPageMessageReceivedFromServiceWorker\<close>, the handler of the page side.\<close>

primrec onPageMessageReceivedFromServiceWorker ::
  "nat \<Rightarrow> (nat \<Rightarrow> 'p \<Rightarrow> 'p action list) \<Rightarrow> 'p WorkerMessengerMessage
     \<Rightarrow> WorkerMessengerReplyBuffer \<Rightarrow> 'p outcome option" where
  "onPageMessageReceivedFromServiceWorker 0 cbs event s = None"
| "onPageMessageReceivedFromServiceWorker (Suc depth) cbs event s =
     (case findListenersForMessage s (command event) of
        Arr listenerRecords \<Rightarrow>
          (case collect_loop listenerRecords ([], []) of
             (listenersToRemove, listenersToCall) \<Rightarrow>
               (case remove_loop (length listenersToRemove) listenersToRemove (command event) s of
                  (Some e, s1) \<Rightarrow> Some (Some e, s1, [])
                | (None, s1) \<Rightarrow>
                    invoke_all (onPageMessageReceivedFromServiceWorker depth cbs) cbs
                      (payload event) listenersToCall s1))
      | Undefined \<Rightarrow> Some (Some TypeError, s, [])
      | Null \<Rightarrow> Some (Some TypeError, s, []))"


subsection \<open>Sending, and the readiness gate\<close>

text \<open>
  Modelled from the spec: the enum \<open>WindowEnvironmentKind\<close>, whose member
  \<open>SdkEnvironment.getWindowEnv()\<close> returns, is declared outside the two source files.
  The spec's role is either the worker or the page; the code only asks whether the
  environment is \<open>ServiceWorker\<close>.
\<close>

datatype WindowEnvironmentKind = ServiceWorker | Page

text \<open>
  Modelled from the spec: the enum \<open>ServiceWorkerActiveState\<close>, the result of
  \<open>getActiveState()\<close>, is declared outside the two source files. The spec lists
  not-active, WorkerA, WorkerB and a further unknown state; the code only compares with
  \<open>WorkerA\<close> and \<open>WorkerB\<close>.
\<close>

datatype ServiceWorkerActiveState = WorkerA | WorkerB | NotActive | Indeterminate

text \<open>
  An \<open>async\<close> function returns a promise: fulfilled, rejected with the error thrown, or
  still pending.
\<close>

datatype promise = Fulfilled | Rejected error | Pending

text \<open>
  What the platform shows at one moment: \<open>self.registration.active\<close> (a worker or
  \<open>null\<close>) and the state \<open>getActiveState()\<close> yields.
\<close>

record 'w observation =
  registration_active :: "'w option"
  active_state :: ServiceWorkerActiveState

text \<open>\<open>isWorkerControllingPage\<close>; \<open>!!x\<close> is true for an object and false for \<open>null\<close>.\<close>

definition isWorkerControllingPage :: "WindowEnvironmentKind \<Rightarrow> 'w observation \<Rightarrow> bool" where
  "isWorkerControllingPage env obs =
     (if env = ServiceWorker then registration_active obs \<noteq> None
      else (let workerState = active_state obs
            in workerState = WorkerA \<or> workerState = WorkerB))"

text \<open>
  \<open>waitUntilWorkerControlsPage\<close>: the check at the call, then one check at each later
  \<open>activate\<close> (worker) or \<open>controllerchange\<close> (page) event; the promise resolves when a
  check succeeds. \<open>now\<close> is what the first check sees, \<open>later\<close> what the checks of the
  events that follow see.
\<close>

definition waitUntilWorkerControlsPage ::
  "WindowEnvironmentKind \<Rightarrow> 'w observation \<Rightarrow> 'w observation list \<Rightarrow> promise" where
  "waitUntilWorkerControlsPage env now later =
     (if isWorkerControllingPage env now then Fulfilled
      else if list_ex (isWorkerControllingPage env) later then Fulfilled
      else Pending)"

text \<open>
  A posted message and where it went: to a window client, or to
  \<open>navigator.serviceWorker.controller\<close>.
\<close>

datatype 'c target = ToClient 'c | ToController 'c

text \<open>
  \<open>broadcast\<close>. \<open>clients\<close> is what \<open>self.clients.matchAll\<close> resolves to. The result is
  the promise and the messages posted, in order.
\<close>

definition broadcast ::
  "WindowEnvironmentKind \<Rightarrow> 'c list \<Rightarrow> WorkerMessengerCommand \<Rightarrow> 'p
     \<Rightarrow> promise \<times> ('c target \<times> 'p WorkerMessengerMessage) list" where
  "broadcast env clients cmd p =
     (if env \<noteq> ServiceWorker then (Fulfilled, [])
      else (Fulfilled, map (\<lambda>client. (ToClient client, \<lparr>command = cmd, payload = p\<rparr>)) clients))"

text \<open>
  How a call ends for its caller: with an exception thrown to the caller, or with a value
  returned, here a promise. A call of an \<open>async\<close> function always returns its promise:
  an exception thrown in the body of the function rejects that promise and is not thrown
  to the caller.
\<close>

datatype completion = Threw error | Returned promise

text \<open>
  \<open>unicast\<close>, an \<open>async\<close> function. In the worker its body throws or posts before any
  \<open>await\<close>. In the page it awaits its own check (\<open>seen\<close>, used for logging only), then
  \<open>waitUntilWorkerControlsPage\<close>, then posts to the controller, which is an object or
  \<open>null\<close>. The result is how the call ends and the messages posted.
\<close>

definition unicast ::
  "WindowEnvironmentKind \<Rightarrow> WorkerMessengerCommand \<Rightarrow> 'p \<Rightarrow> 'c option
     \<Rightarrow> 'w observation \<Rightarrow> 'w observation \<Rightarrow> 'w observation list \<Rightarrow> 'c option
     \<Rightarrow> completion \<times> ('c target \<times> 'p WorkerMessengerMessage) list" where
  "unicast env cmd p windowClient seen now later controller =
     (if env = ServiceWorker then
        (case windowClient of
           None \<Rightarrow> (Returned (Rejected (InvalidArgumentError ''windowClient'' Empty)), [])
         | Some client \<Rightarrow>
             (Returned Fulfilled, [(ToClient client, \<lparr>command = cmd, payload = p\<rparr>)]))
      else
        (case waitUntilWorkerControlsPage env now later of
           Fulfilled \<Rightarrow>
             (case controller of
                None \<Rightarrow> (Returned (Rejected TypeError), [])
              | Some c \<Rightarrow>
                  (Returned Fulfilled, [(ToController c, \<lparr>command = cmd, payload = p\<rparr>)]))
         | Rejected e \<Rightarrow> (Returned (Rejected e), [])
         | Pending \<Rightarrow> (Returned Pending, [])))"

section \<open>Views of the buffer used in the statements\<close>

text \<open>The records a topic holds: those of its array, none when the key holds no array.\<close>

definition listeners ::
  "WorkerMessengerReplyBuffer \<Rightarrow> WorkerMessengerCommand \<Rightarrow> WorkerMessengerReplyBufferRecord list" where
  "listeners s cmd = (case replies s (toString cmd) of Arr xs \<Rightarrow> xs | Undefined \<Rightarrow> [] | Null \<Rightarrow> [])"

text \<open>
  The buffer after the second loop of a handler for the topic: unchanged when the topic
  has no once-only record, and otherwise with every record of the topic spliced out that
  is the same object as one of its once-only records.
\<close>

definition without_once ::
  "WorkerMessengerReplyBuffer \<Rightarrow> WorkerMessengerCommand \<Rightarrow> WorkerMessengerReplyBuffer" where
  "without_once s cmd =
     (if filter onceListenerOnly (listeners s cmd) = [] then s
      else s\<lparr>replies := (replies s)(toString cmd :=
             Arr (filter (\<lambda>r. ident r \<notin> set (map ident (filter onceListenerOnly (listeners s cmd))))
                    (listeners s cmd)))\<rparr>)"










text \<open>
  The records of a buffer are objects: each was created before (its identity is below
  the number of records created), and an object is in one place only, that is once in
  the array of one topic. A new buffer is so, and every operation keeps it so.
\<close>

definition well_formed :: "WorkerMessengerReplyBuffer \<Rightarrow> bool" where
  "well_formed s =
     ((\<forall>c. \<forall>r \<in> set (listeners s c). ident r < allocated s)
      \<and> (\<forall>c. distinct (map ident (listeners s c)))
      \<and> (\<forall>c c'. c \<noteq> c' \<longrightarrow>
            set (map ident (listeners s c)) \<inter> set (map ident (listeners s c')) = {}))"

text \<open>
  \<open>later cbs s t\<close>: the messenger whose buffer was \<open>s\<close> has buffer \<open>t\<close> after any
  number of calls of \<open>on\<close>, \<open>once\<close> and \<open>off\<close> and of dispatches that returned.
\<close>

inductive later ::
  "(nat \<Rightarrow> 'p \<Rightarrow> 'p action list) \<Rightarrow> WorkerMessengerReplyBuffer \<Rightarrow> WorkerMessengerReplyBuffer \<Rightarrow> bool"
  for cbs :: "nat \<Rightarrow> 'p \<Rightarrow> 'p action list" and s :: WorkerMessengerReplyBuffer where
  later_now: "later cbs s s"
| later_on: "later cbs s t \<Longrightarrow> on cmd cb t = Inr u \<Longrightarrow> later cbs s u"
| later_once: "later cbs s t \<Longrightarrow> once cmd cb t = Inr u \<Longrightarrow> later cbs s u"
| later_off: "later cbs s t \<Longrightarrow> later cbs s (off c t)"
| later_worker_dispatch:
    "later cbs s t \<Longrightarrow> onWorkerMessageReceivedFromPage d cbs ev t = Some (e, u, evs)
     \<Longrightarrow> later cbs s u"
| later_page_dispatch:
    "later cbs s t \<Longrightarrow> onPageMessageReceivedFromServiceWorker d cbs ev t = Some (e, u, evs)
     \<Longrightarrow> later cbs s u"













definition nothing_active :: "nat observation" where
  "nothing_active = \<lparr>registration_active = None, active_state = NotActive\<rparr>"

section \<open>The reply buffer: what its operations compute\<close>

lemma toString_inj: "toString a = toString b \<longleftrightarrow> a = b"
  by (cases a; cases b; simp)

lemma toString_nonempty: "toString a \<noteq> []"
  by (cases a; simp)

lemma find_listeners: "findListenersForMessage s cmd = Arr (listeners s cmd)"
  by (simp add: findListenersForMessage_def listeners_def Let_def split: jsval.splits)

lemma addListener_eq:
  "addListener cmd cb o1 s =
     Inr (s\<lparr>allocated := Suc (allocated s),
            replies := (replies s)(toString cmd :=
              Arr (listeners s cmd @ [\<lparr>ident = allocated s, callback = cb, onceListenerOnly = o1\<rparr>]))\<rparr>)"
  by (auto simp add: addListener_def findListenersForMessage_def listeners_def Let_def split: jsval.splits)

lemma splice_loop_gen:
  "i \<le> length xs \<Longrightarrow>
   splice_loop i t xs = filter (\<lambda>r. \<not> same_object r t) (take i xs) @ drop i xs"
proof (induction i arbitrary: xs)
  case 0
  then show ?case by simp
next
  case (Suc i)
  then have lt: "i < length xs" by simp
  show ?case
  proof (cases "same_object (xs ! i) t")
    case True
    have "splice_loop (Suc i) t xs = splice_loop i t (take i xs @ drop (Suc i) xs)"
      using True by simp
    also have "\<dots> = filter (\<lambda>r. \<not> same_object r t) (take i xs) @ drop (Suc i) xs"
      using lt by (subst Suc.IH) (simp_all add: min_def)
    finally show ?thesis using True lt by (simp add: take_Suc_conv_app_nth)
  next
    case False
    then show ?thesis using lt Suc.IH[of xs]
      by (simp add: take_Suc_conv_app_nth Cons_nth_drop_Suc)
  qed
qed

lemma splice_loop_filter:
  "splice_loop (length xs) t xs = filter (\<lambda>r. \<not> same_object r t) xs"
  by (simp add: splice_loop_gen)

lemma collect_loop_gen:
  "collect_loop xs (rm, call) = (rm @ filter onceListenerOnly xs, call @ xs)"
  by (induction xs arbitrary: rm call) auto


lemma deleteListenerRecord_Arr:
  "replies s (toString cmd) = Arr xs \<Longrightarrow>
   deleteListenerRecord cmd t s =
     Inr (s\<lparr>replies := (replies s)(toString cmd := Arr (filter (\<lambda>r. \<not> same_object r t) xs))\<rparr>)"
  by (simp add: deleteListenerRecord_def splice_loop_filter)

lemma remove_loop_Arr:
  "i \<le> length rm \<Longrightarrow> replies s (toString cmd) = Arr xs \<Longrightarrow>
   remove_loop i rm cmd s =
     (None, s\<lparr>replies := (replies s)(toString cmd :=
        Arr (filter (\<lambda>r. ident r \<notin> set (map ident (take i rm))) xs))\<rparr>)"
proof (induction i arbitrary: s xs)
  case 0
  then have "(replies s)(toString cmd := Arr xs) = replies s" by auto
  then show ?case by simp
next
  case (Suc i)
  then have lt: "i < length rm" by simp
  let ?s1 = "s\<lparr>replies := (replies s)(toString cmd := Arr (filter (\<lambda>r. \<not> same_object r (rm ! i)) xs))\<rparr>"
  have d: "deleteListenerRecord cmd (rm ! i) s = Inr ?s1"
    using Suc.prems(2) by (rule deleteListenerRecord_Arr)
  have r: "replies ?s1 (toString cmd) = Arr (filter (\<lambda>r. \<not> same_object r (rm ! i)) xs)"
    by simp
  have a: "remove_loop (Suc i) rm cmd s = remove_loop i rm cmd ?s1"
    using d by simp
  have b: "remove_loop i rm cmd ?s1 = (None, ?s1\<lparr>replies := (replies ?s1)(toString cmd :=
        Arr (filter (\<lambda>r. ident r \<notin> set (map ident (take i rm)))
               (filter (\<lambda>r. \<not> same_object r (rm ! i)) xs)))\<rparr>)"
    using lt by (intro Suc.IH[OF _ r]) simp
  have c: "filter (\<lambda>r. ident r \<notin> set (map ident (take i rm)))
               (filter (\<lambda>r. \<not> same_object r (rm ! i)) xs)
             = filter (\<lambda>r. ident r \<notin> set (map ident (take (Suc i) rm))) xs"
    using lt by (auto simp add: take_Suc_conv_app_nth same_object_def intro: filter_cong)
  have e: "?s1\<lparr>replies := (replies ?s1)(toString cmd := V)\<rparr>
             = s\<lparr>replies := (replies s)(toString cmd := V)\<rparr>" for V
    by simp
  show ?case by (simp only: a b c e)
qed

lemma remove_phase:
  "remove_loop (length (filter onceListenerOnly (listeners s cmd)))
     (filter onceListenerOnly (listeners s cmd)) cmd s = (None, without_once s cmd)"
proof (cases "filter onceListenerOnly (listeners s cmd) = []")
  case True
  then show ?thesis by (simp add: without_once_def)
next
  case False
  then have "listeners s cmd \<noteq> []" by auto
  then have "replies s (toString cmd) = Arr (listeners s cmd)"
    by (auto simp add: listeners_def split: jsval.splits)
  from remove_loop_Arr[OF le_refl this] False show ?thesis
    by (simp add: without_once_def)
qed

lemma deleteListenerRecord_absent_record:
  assumes arr: "replies s (toString cmd) = Arr xs"
    and absent: "ident targetRecord \<notin> set (map ident xs)"
  shows "deleteListenerRecord cmd targetRecord s = Inr s"
proof -
  have "\<forall>r \<in> set xs. \<not> same_object r targetRecord"
    using absent unfolding same_object_def by (metis image_eqI list.set_map)
  then have "filter (\<lambda>r. \<not> same_object r targetRecord) xs = xs"
    by (simp add: filter_id_conv)
  moreover have "(replies s)(toString cmd := Arr xs) = replies s"
    using arr by auto
  ultimately show ?thesis
    by (simp add: deleteListenerRecord_Arr[OF arr])
qed

lemma remove_loop_in_dispatch_no_error:
  "fst (remove_loop (length (filter onceListenerOnly (listeners s cmd)))
     (filter onceListenerOnly (listeners s cmd)) cmd s) = None"
  by (simp add: remove_phase)

lemma worker_handler_unfold:
  "onWorkerMessageReceivedFromPage (Suc d) cbs ev s =
     invoke_all (onWorkerMessageReceivedFromPage d cbs) cbs (payload ev)
       (listeners s (command ev)) (without_once s (command ev))"
  by (simp add: find_listeners collect_loop_gen remove_phase)

lemma page_handler_unfold:
  "onPageMessageReceivedFromServiceWorker (Suc d) cbs ev s =
     invoke_all (onPageMessageReceivedFromServiceWorker d cbs) cbs (payload ev)
       (listeners s (command ev)) (without_once s (command ev))"
  by (simp add: find_listeners collect_loop_gen remove_phase)

declare onWorkerMessageReceivedFromPage.simps(2) [simp del]
declare onPageMessageReceivedFromServiceWorker.simps(2) [simp del]

lemma handlers_equal_fun:
  "onWorkerMessageReceivedFromPage d cbs = onPageMessageReceivedFromServiceWorker d cbs"
proof (induction d)
  case 0
  show ?case by (intro ext) simp
next
  case (Suc d)
  show ?case
    by (intro ext) (simp only: worker_handler_unfold page_handler_unfold Suc.IH)
qed

section \<open>Dispatch: what a handler invokes\<close>

lemma listeners_addListener:
  "addListener cmd cb o1 s = Inr s1 \<Longrightarrow>
   listeners s1 c =
     (if c = cmd then listeners s cmd @ [\<lparr>ident = allocated s, callback = cb, onceListenerOnly = o1\<rparr>]
      else listeners s c)"
  by (auto simp add: addListener_eq listeners_def toString_inj)

lemma allocated_addListener:
  "addListener cmd cb o1 s = Inr s1 \<Longrightarrow> allocated s1 = Suc (allocated s)"
  by (auto simp add: addListener_eq)

lemma listeners_off_Some:
  "listeners (off (Some T) s) U = (if U = T then [] else listeners s U)"
  by (simp add: listeners_def off_def truthy_string_def toString_nonempty
        deleteListenerRecords_def toString_inj)

lemma listeners_off_None: "listeners (off None s) U = []"
  by (simp add: listeners_def off_def deleteAllListenerRecords_def)

lemma allocated_off: "allocated (off c s) = allocated s"
  by (cases c) (simp_all add: off_def deleteListenerRecords_def deleteAllListenerRecords_def)


lemma allocated_without_once: "allocated (without_once s cmd) = allocated s"
  by (simp add: without_once_def)

lemma listeners_without_once:
  "listeners (without_once s cmd) c =
     (if c = cmd
      then filter (\<lambda>r. ident r \<notin> set (map ident (filter onceListenerOnly (listeners s cmd))))
             (listeners s cmd)
      else listeners s c)"
proof (cases "filter onceListenerOnly (listeners s cmd) = []")
  case True
  then show ?thesis by (simp add: without_once_def)
next
  case False
  then show ?thesis by (simp add: without_once_def listeners_def toString_inj)
qed



















section \<open>Objects the buffer no longer holds\<close>













section \<open>The records of a buffer are objects\<close>


lemma well_formed_addListener:
  assumes wf: "well_formed s" and add: "addListener cmd cb o1 s = Inr s1"
  shows "well_formed s1"
proof -
  from wf have bound: "\<And>c r. r \<in> set (listeners s c) \<Longrightarrow> ident r < allocated s"
    and dist: "\<And>c. distinct (map ident (listeners s c))"
    and disj: "\<And>c c'. c \<noteq> c' \<Longrightarrow>
          set (map ident (listeners s c)) \<inter> set (map ident (listeners s c')) = {}"
    unfolding well_formed_def by blast+
  have new: "allocated s \<notin> set (map ident (listeners s c))" for c
  proof
    assume "allocated s \<in> set (map ident (listeners s c))"
    then obtain r where "r \<in> set (listeners s c)" and "ident r = allocated s" by auto
    with bound[of r c] show False by simp
  qed
  note l = listeners_addListener[OF add]
  have b1: "ident r < allocated s1" if "r \<in> set (listeners s1 c)" for c r
    using that bound[of r c] bound[of r cmd]
    by (auto simp add: l allocated_addListener[OF add] less_Suc_eq split: if_splits)
  have d1: "distinct (map ident (listeners s1 c))" for c
    using dist[of c] dist[of cmd] new[of cmd] by (simp add: l)
  have j1: "set (map ident (listeners s1 c)) \<inter> set (map ident (listeners s1 c')) = {}"
    if "c \<noteq> c'" for c c'
    using disj[OF that] new[of c] new[of c'] that by (auto simp add: l)
  from b1 d1 j1 show ?thesis unfolding well_formed_def by blast
qed

lemma well_formed_off: "well_formed s \<Longrightarrow> well_formed (off c s)"
  by (cases c)
     (simp_all add: well_formed_def listeners_off_None listeners_off_Some allocated_off)

lemma well_formed_without_once:
  assumes wf: "well_formed s"
  shows "well_formed (without_once s cmd)"
proof -
  from wf have bound: "\<And>c r. r \<in> set (listeners s c) \<Longrightarrow> ident r < allocated s"
    and dist: "\<And>c. distinct (map ident (listeners s c))"
    and disj: "\<And>c c'. c \<noteq> c' \<Longrightarrow>
          set (map ident (listeners s c)) \<inter> set (map ident (listeners s c')) = {}"
    unfolding well_formed_def by blast+
  have sub: "set (listeners (without_once s cmd) c) \<subseteq> set (listeners s c)" for c
    by (auto simp add: listeners_without_once)
  have b1: "ident r < allocated (without_once s cmd)"
    if "r \<in> set (listeners (without_once s cmd) c)" for c r
    using that sub[of c] bound[of r c] by (auto simp add: allocated_without_once)
  have d1: "distinct (map ident (listeners (without_once s cmd) c))" for c
    using dist[of c] dist[of cmd] by (auto simp add: listeners_without_once distinct_map_filter)
  have j1: "set (map ident (listeners (without_once s cmd) c))
            \<inter> set (map ident (listeners (without_once s cmd) c')) = {}"
    if "c \<noteq> c'" for c c'
  proof -
    have "set (map ident (listeners (without_once s cmd) c)) \<subseteq> set (map ident (listeners s c))"
      and "set (map ident (listeners (without_once s cmd) c')) \<subseteq> set (map ident (listeners s c'))"
      using sub[of c] sub[of c'] by auto
    with disj[OF that] show ?thesis by blast
  qed
  from b1 d1 j1 show ?thesis unfolding well_formed_def by blast
qed

lemma run_actions_well_formed:
  assumes recv: "\<And>ev s e s' evs. well_formed s \<Longrightarrow> recv ev s = Some (e, s', evs)
                   \<Longrightarrow> well_formed s'"
  shows "well_formed s \<Longrightarrow> run_actions recv acts s = Some (e, s', evs) \<Longrightarrow> well_formed s'"
proof (induction acts arbitrary: s e s' evs)
  case Nil
  then show ?case by simp
next
  case (Cons a acts)
  show ?case
  proof (cases a)
    case (On cmd cb)
    obtain s1 where a1: "addListener cmd cb False s = Inr s1" by (simp add: addListener_eq)
    have "well_formed s1" using Cons.prems(1) a1 by (rule well_formed_addListener)
    moreover have "run_actions recv acts s1 = Some (e, s', evs)"
      using Cons.prems(2) On a1 by (simp add: on_def)
    ultimately show ?thesis by (rule Cons.IH)
  next
    case (Once cmd cb)
    obtain s1 where a1: "addListener cmd cb True s = Inr s1" by (simp add: addListener_eq)
    have "well_formed s1" using Cons.prems(1) a1 by (rule well_formed_addListener)
    moreover have "run_actions recv acts s1 = Some (e, s', evs)"
      using Cons.prems(2) Once a1 by (simp add: once_def)
    ultimately show ?thesis by (rule Cons.IH)
  next
    case (Off c)
    have "well_formed (off c s)" using Cons.prems(1) by (rule well_formed_off)
    moreover have "run_actions recv acts (off c s) = Some (e, s', evs)"
      using Cons.prems(2) Off by simp
    ultimately show ?thesis by (rule Cons.IH)
  next
    case (Receive cmd q)
    from Cons.prems(2) Receive obtain e1 s1 evs1 evs2 where
      r1: "recv \<lparr>command = cmd, payload = q\<rparr> s = Some (e1, s1, evs1)"
      and r2: "run_actions recv acts s1 = Some (e, s', evs2)"
      by (auto split: option.splits)
    from recv[OF Cons.prems(1) r1] r2 show ?thesis by (rule Cons.IH)
  next
    case Throw
    with Cons.prems show ?thesis by simp
  qed
qed

lemma invoke_all_well_formed:
  assumes recv: "\<And>ev s e s' evs. well_formed s \<Longrightarrow> recv ev s = Some (e, s', evs)
                   \<Longrightarrow> well_formed s'"
  shows "well_formed s \<Longrightarrow> invoke_all recv cbs p rs s = Some (e, s', evs) \<Longrightarrow> well_formed s'"
proof (induction rs arbitrary: s e s' evs)
  case Nil
  then show ?case by simp
next
  case (Cons r rs)
  from Cons.prems(2) obtain e1 s1 evs1 where
    ra: "run_actions recv (cbs (callback r) p) s = Some (e1, s1, evs1)"
    by (auto split: option.splits)
  from run_actions_well_formed[of recv, OF recv Cons.prems(1) ra]
  have w1: "well_formed s1" .
  show ?case
  proof (cases e1)
    case (Some err)
    with Cons.prems(2) ra have "s' = s1" by simp
    with w1 show ?thesis by simp
  next
    case None
    with Cons.prems(2) ra obtain evs2 where
      ia: "invoke_all recv cbs p rs s1 = Some (e, s', evs2)"
      by (auto split: option.splits)
    from w1 ia show ?thesis by (rule Cons.IH)
  qed
qed

lemma worker_handler_well_formed:
  "well_formed s \<Longrightarrow> onWorkerMessageReceivedFromPage d cbs ev s = Some (e, s', evs)
   \<Longrightarrow> well_formed s'"
proof (induction d arbitrary: ev s e s' evs)
  case 0
  then show ?case by simp
next
  case (Suc d)
  have run: "invoke_all (onWorkerMessageReceivedFromPage d cbs) cbs (payload ev)
       (listeners s (command ev)) (without_once s (command ev)) = Some (e, s', evs)"
    using Suc.prems(2) by (simp only: worker_handler_unfold)
  have k: "well_formed (without_once s (command ev))"
    using Suc.prems(1) by (rule well_formed_without_once)
  from invoke_all_well_formed[of "onWorkerMessageReceivedFromPage d cbs", OF Suc.IH k run]
  show ?case .
qed

lemma later_well_formed:
  "later cbs s t \<Longrightarrow> well_formed s \<Longrightarrow> well_formed t"
proof (induction rule: later.induct)
  case later_now
  then show ?case by simp
next
  case (later_on t cmd cb u)
  then show ?case by (auto simp add: on_def dest: well_formed_addListener)
next
  case (later_once t cmd cb u)
  then show ?case by (auto simp add: once_def dest: well_formed_addListener)
next
  case (later_off t c)
  then show ?case by (simp add: well_formed_off)
next
  case (later_worker_dispatch t d ev e u evs)
  from later_worker_dispatch.IH[OF later_worker_dispatch.prems]
    worker_handler_well_formed[OF _ later_worker_dispatch.hyps(2)]
  show ?case by simp
next
  case (later_page_dispatch t d ev e u evs)
  from later_page_dispatch.hyps(2)
  have "onWorkerMessageReceivedFromPage d cbs ev t = Some (e, u, evs)"
    by (simp add: handlers_equal_fun)
  from later_page_dispatch.IH[OF later_page_dispatch.prems] worker_handler_well_formed[OF _ this]
  show ?case by simp
qed




section \<open>The claims\<close>

text \<open>
  C1. The claim: \<open>deleteListenerRecord(T, r)\<close> for a topic with no listener sequence
  (absent, or nulled by \<open>deleteListenerRecords\<close> or \<open>off\<close>) raises no error and leaves
  the registry unchanged. The code reads \<open>listenersForCommand.length\<close> with no guard,
  so for every topic and every record the call raises a \<open>TypeError\<close> on a new buffer,
  after \<open>deleteListenerRecords\<close> of the topic, after \<open>off\<close> of the topic and after
  \<open>off()\<close>.
\<close>

theorem deleteListenerRecord_without_sequence_raises:
  "deleteListenerRecord cmd targetRecord new_buffer = Inl TypeError
   \<and> deleteListenerRecord cmd targetRecord (deleteListenerRecords cmd s) = Inl TypeError
   \<and> deleteListenerRecord cmd targetRecord (off (Some cmd) s) = Inl TypeError
   \<and> deleteListenerRecord cmd targetRecord (off None s) = Inl TypeError"
  by (simp add: deleteListenerRecord_def new_buffer_def deleteListenerRecords_def
        deleteAllListenerRecords_def off_def truthy_string_def toString_nonempty)







text \<open>
  C4. In every state of the buffer, so in every state the public operations reach, and
  for every topic, \<open>findListenersForMessage\<close> returns an array, never \<open>null\<close> and
  never \<open>undefined\<close>: the records the topic holds, and the empty array for a topic of
  a new buffer, for a topic cleared by \<open>deleteListenerRecords\<close> and after
  \<open>deleteAllListenerRecords\<close>.
\<close>

theorem findListenersForMessage_returns_array:
  "findListenersForMessage s cmd = Arr (listeners s cmd)
   \<and> findListenersForMessage s cmd \<noteq> Null
   \<and> findListenersForMessage s cmd \<noteq> Undefined
   \<and> findListenersForMessage new_buffer cmd = Arr []
   \<and> findListenersForMessage (deleteListenerRecords cmd s) cmd = Arr []
   \<and> findListenersForMessage (deleteAllListenerRecords s) cmd = Arr []"
  by (simp add: find_listeners listeners_def new_buffer_def deleteListenerRecords_def
        deleteAllListenerRecords_def)

text \<open>
  C5. The claim says that in the worker role \<open>unicast\<close> without a window client raises
  its error synchronously. \<open>unicast\<close> is an \<open>async\<close> function, so the call does not
  throw (the example after the theorem). What the code does: in the worker role,
  \<open>unicast\<close> without a window client returns a promise rejected with the
  invalid-argument error and posts nothing, and with a window client it posts the
  message \<open>{command, payload}\<close> to that client and to nobody else. Both results are the
  same whatever the platform shows then or later: they are settled before any \<open>await\<close>.
\<close>

theorem unicast_in_worker:
  "unicast ServiceWorker cmd p None seen now events controller
     = (Returned (Rejected (InvalidArgumentError ''windowClient'' Empty)), [])
   \<and> unicast ServiceWorker cmd p (Some client) seen now events controller
     = (Returned Fulfilled, [(ToClient client, \<lparr>command = cmd, payload = p\<rparr>)])"
  by (simp add: unicast_def)

text \<open>
  C5, the claim as it stands fails: in the worker role, the call of \<open>unicast\<close> for the
  topic \<open>Subscribe\<close> with no window client does not end with the invalid-argument error
  thrown to the caller; it returns a promise, rejected with that error.
\<close>

theorem unicast_call_does_not_throw:
  "fst (unicast ServiceWorker Subscribe (7::nat) (None::nat option)
          nothing_active nothing_active [] (None::nat option))
     \<noteq> Threw (InvalidArgumentError ''windowClient'' Empty)
   \<and> unicast ServiceWorker Subscribe (7::nat) (None::nat option)
          nothing_active nothing_active [] (None::nat option)
       = (Returned (Rejected (InvalidArgumentError ''windowClient'' Empty)), [])"
  by (simp add: unicast_def)



text \<open>
  C7. For every topic and payload, \<open>broadcast\<close> from the page role resolves at once,
  with no error, and posts no message to any client.
\<close>

theorem broadcast_from_page_posts_nothing:
  "broadcast Page clients cmd p = (Fulfilled, [])"
  by (simp add: broadcast_def)

text \<open>
  C8. In the page role \<open>isWorkerControllingPage\<close> is true exactly when the activation
  state fetched is \<open>WorkerA\<close> or \<open>WorkerB\<close>; in the worker role it is true exactly when
  the worker's registration has an active worker.
\<close>

theorem isWorkerControllingPage_by_role:
  "isWorkerControllingPage Page obs
     = (active_state obs = WorkerA \<or> active_state obs = WorkerB)
   \<and> isWorkerControllingPage ServiceWorker obs = (registration_active obs \<noteq> None)"
  by (simp add: isWorkerControllingPage_def Let_def)

text \<open>
  C9. The worker-side and the page-side receive handler are the same dispatch: for every
  buffer, every message, every table of callbacks and every bound on re-entry, both
  return the same result, that is the same error or none, the same buffer and the same
  invocations of callbacks in the same order, or both do not return within the bound.
\<close>

theorem handlers_same_dispatch:
  "onWorkerMessageReceivedFromPage d cbs ev s
     = onPageMessageReceivedFromServiceWorker d cbs ev s"
  by (simp add: handlers_equal_fun)




end
